theory Spec2Isabelle
  imports Complex_Main
begin

section \<open>Python values used by the pipeline\<close>

text \<open>
  A Python \<open>str\<close> is modelled as a \<open>string\<close>; every \<open>char\<close> stands for one code point
  below 256.  An exception is the value \<open>Raised m\<close>, where \<open>m\<close> is what \<open>str(e)\<close> gives;
  \<open>IndexError\<close> is the one exception the pipeline can raise by itself (indexing an empty
  embedding result).
\<close>

datatype exn = Raised string | IndexError

fun str_exn :: "exn \<Rightarrow> string" where
  "str_exn (Raised m) = m"
| "str_exn IndexError = ''index 0 is out of bounds for axis 0 with size 0''"

type_synonym vector = "real list"

definition code_point :: "char \<Rightarrow> nat" where
  "code_point c = of_char c"

text \<open>The regular-expression class \<open>\d\<close> on a \<open>str\<close> pattern: the decimal digits.\<close>

definition is_digit :: "char \<Rightarrow> bool" where
  "is_digit c = (48 \<le> code_point c \<and> code_point c \<le> 57)"

text \<open>The class \<open>\s\<close> on a \<open>str\<close> pattern: the whitespace code points (those below 256).\<close>

definition is_space :: "char \<Rightarrow> bool" where
  "is_space c =
     ((9 \<le> code_point c \<and> code_point c \<le> 13) \<or> (28 \<le> code_point c \<and> code_point c \<le> 32)
      \<or> code_point c = 133 \<or> code_point c = 160)"

text \<open>\<open>os.path.basename\<close>: everything after the last slash.\<close>

definition basename :: "string \<Rightarrow> string" where
  "basename p = rev (takeWhile (\<lambda>c. c \<noteq> CHR ''/'') (rev p))"

text \<open>\<open>sep.join(xs)\<close>.\<close>

fun join :: "string \<Rightarrow> string list \<Rightarrow> string" where
  "join sep [] = []"
| "join sep [x] = x"
| "join sep (x # y # ys) = x @ sep @ join sep (y # ys)"

section \<open>Data model\<close>

text \<open>The chunk dictionaries built by \<open>chunk_text\<close>.\<close>

record chunk =
  ch_text :: string
  ch_source :: string
  original_index :: nat
  chunk_index :: nat

text \<open>A point's payload dictionary; a key may be absent.\<close>

record payload =
  pl_text :: "string option"
  pl_source :: "string option"
  pl_original_index :: "nat option"
  pl_chunk_index :: "nat option"

record point_struct =
  pt_id :: nat
  pt_vector :: vector
  pt_payload :: payload

text \<open>One hit of a similarity query; the score may be absent.\<close>

record scored_point =
  sp_payload :: payload
  sp_score :: "real option"

text \<open>The dictionaries returned by \<open>retrieve\<close>.\<close>

record retrieved_chunk =
  rc_text :: string
  rc_source :: string
  rc_score :: real

text \<open>The dictionary returned by \<open>query\<close>.\<close>

record query_result =
  answer :: string
  qr_chunks :: "retrieved_chunk list"
  num_chunks :: nat

section \<open>Collaborators and state\<close>

text \<open>
  The external engines are parameters of the model: each is a function that either raises
  or returns.  The vector store's contents are part of the state; whether reading the
  collection information or writing a batch raises is given by two fault fields.
  \<open>ollama_generate\<close> stands for the whole body of the \<open>try\<close> block of
  \<open>generate_answer\<close>: the call for the configured model and the read of its \<open>response\<close> key.
\<close>

record services =
  pdf_load :: "string \<Rightarrow> exn + string list"
  whisper_load_fault :: "exn option"
  whisper_transcribe :: "string \<Rightarrow> exn + string"
  split_text :: "string \<Rightarrow> exn + string list"
  encode :: "string list \<Rightarrow> exn + vector list"
  get_collection_fault :: "exn option"
  upsert_fault :: "exn option"
  query_points :: "point_struct list \<Rightarrow> vector \<Rightarrow> int \<Rightarrow> exn + scored_point list"
  ollama_generate :: "string \<Rightarrow> exn + string"

text \<open>
  The state: the points of the collection, whether the Whisper model has been loaded, and
  the prompts sent to the language model so far (oldest first).
\<close>

record world =
  collection :: "point_struct list"
  whisper_model :: bool
  llm_prompts :: "string list"

subsection \<open>The vector store\<close>

text \<open>An upsert overwrites the point that has the same id, and adds the point otherwise.\<close>

fun upsert_point :: "point_struct \<Rightarrow> point_struct list \<Rightarrow> point_struct list" where
  "upsert_point p [] = [p]"
| "upsert_point p (q # qs) = (if pt_id q = pt_id p then p # qs else q # upsert_point p qs)"

definition upsert :: "point_struct list \<Rightarrow> point_struct list \<Rightarrow> point_struct list" where
  "upsert col points = foldl (\<lambda>c p. upsert_point p c) col points"

definition get_collection :: "services \<Rightarrow> world \<Rightarrow> exn + nat" where
  "get_collection sv w =
     (case get_collection_fault sv of Some e \<Rightarrow> Inl e | None \<Rightarrow> Inr (length (collection w)))"

section \<open>Ingestion\<close>

definition load_pdf :: "services \<Rightarrow> string \<Rightarrow> exn + string list" where
  "load_pdf sv pdf_path = pdf_load sv pdf_path"

definition transcribe_audio :: "services \<Rightarrow> world \<Rightarrow> string \<Rightarrow> (exn + string) \<times> world" where
  "transcribe_audio sv w audio_path =
     (if \<not> whisper_model w then
        (case whisper_load_fault sv of
           Some e \<Rightarrow> (Inl e, w)
         | None \<Rightarrow> (whisper_transcribe sv audio_path, w\<lparr>whisper_model := True\<rparr>))
      else (whisper_transcribe sv audio_path, w))"

text \<open>\<open>re.sub(r"^\d+\s*", "", chunk_text)\<close>: the pattern matches at the start of the string
  only, takes as many digits as there are (at least one) and then as much whitespace as
  there is (possibly none); the match is deleted.\<close>

definition cleaned_text :: "string \<Rightarrow> string" where
  "cleaned_text s =
     (if takeWhile is_digit s = [] then s
      else dropWhile is_space (dropWhile is_digit s))"

text \<open>The inner loop of \<open>chunk_text\<close>, over \<open>enumerate(chunks)\<close>.\<close>

fun clean_and_format :: "string \<Rightarrow> nat \<Rightarrow> nat \<Rightarrow> string list \<Rightarrow> chunk list \<Rightarrow> chunk list" where
  "clean_and_format source idx chunk_idx [] all_chunks = all_chunks"
| "clean_and_format source idx chunk_idx (c # cs) all_chunks =
     clean_and_format source idx (Suc chunk_idx) cs
       (all_chunks @ [\<lparr>ch_text = cleaned_text c, ch_source = source,
                       original_index = idx, chunk_index = chunk_idx\<rparr>])"

text \<open>The outer loop of \<open>chunk_text\<close>, over \<open>enumerate(texts)\<close>.\<close>

fun chunk_loop ::
  "(string \<Rightarrow> exn + string list) \<Rightarrow> string \<Rightarrow> nat \<Rightarrow> string list \<Rightarrow> chunk list \<Rightarrow> exn + chunk list" where
  "chunk_loop sp source idx [] all_chunks = Inr all_chunks"
| "chunk_loop sp source idx (t # ts) all_chunks =
     (case sp t of
        Inl e \<Rightarrow> Inl e
      | Inr chunks \<Rightarrow> chunk_loop sp source (Suc idx) ts (clean_and_format source idx 0 chunks all_chunks))"

definition chunk_text :: "services \<Rightarrow> string list \<Rightarrow> string \<Rightarrow> exn + chunk list" where
  "chunk_text sv texts source = chunk_loop (split_text sv) source 0 texts []"

text \<open>The loop of \<open>embed_and_store\<close> over \<open>enumerate(zip(chunks, embeddings))\<close>.  Every chunk
  of \<open>chunk_text\<close> carries both index keys, so the defaults of \<open>chunk.get\<close> are never used.\<close>

fun create_points :: "nat \<Rightarrow> nat \<Rightarrow> (chunk \<times> vector) list \<Rightarrow> point_struct list \<Rightarrow> point_struct list" where
  "create_points start_id idx [] points = points"
| "create_points start_id idx ((c, embedding) # rest) points =
     create_points start_id (Suc idx) rest
       (points @ [\<lparr>pt_id = start_id + idx, pt_vector = embedding,
                   pt_payload = \<lparr>pl_text = Some (ch_text c), pl_source = Some (ch_source c),
                                 pl_original_index = Some (original_index c),
                                 pl_chunk_index = Some (chunk_index c)\<rparr>\<rparr>])"

definition embed_and_store :: "services \<Rightarrow> world \<Rightarrow> chunk list \<Rightarrow> nat \<Rightarrow> (exn + nat) \<times> world" where
  "embed_and_store sv w chunks start_id =
     (case encode sv (map ch_text chunks) of
        Inl e \<Rightarrow> (Inl e, w)
      | Inr embeddings \<Rightarrow>
          (let points = create_points start_id 0 (zip chunks embeddings) [] in
           case upsert_fault sv of
             Some e \<Rightarrow> (Inl e, w)
           | None \<Rightarrow> (Inr (start_id + length points),
                      w\<lparr>collection := upsert (collection w) points\<rparr>)))"

definition process_pdf :: "services \<Rightarrow> world \<Rightarrow> string \<Rightarrow> (exn + nat) \<times> world" where
  "process_pdf sv w pdf_path =
     (case load_pdf sv pdf_path of
        Inl e \<Rightarrow> (Inl e, w)
      | Inr pdf_texts \<Rightarrow>
          (case chunk_text sv pdf_texts (basename pdf_path) of
             Inl e \<Rightarrow> (Inl e, w)
           | Inr chunks \<Rightarrow>
               (let start_id = (case get_collection sv w of Inl e \<Rightarrow> 0 | Inr n \<Rightarrow> n) in
                case embed_and_store sv w chunks start_id of
                  (Inl e, w') \<Rightarrow> (Inl e, w')
                | (Inr next_id, w') \<Rightarrow> (Inr (length chunks), w'))))"

definition process_audio :: "services \<Rightarrow> world \<Rightarrow> string \<Rightarrow> (exn + nat) \<times> world" where
  "process_audio sv w audio_path =
     (case transcribe_audio sv w audio_path of
        (Inl e, w1) \<Rightarrow> (Inl e, w1)
      | (Inr transcript, w1) \<Rightarrow>
          (case chunk_text sv [transcript] (basename audio_path) of
             Inl e \<Rightarrow> (Inl e, w1)
           | Inr chunks \<Rightarrow>
               (let start_id = (case get_collection sv w1 of Inl e \<Rightarrow> 0 | Inr n \<Rightarrow> n) in
                case embed_and_store sv w1 chunks start_id of
                  (Inl e, w') \<Rightarrow> (Inl e, w')
                | (Inr next_id, w') \<Rightarrow> (Inr (length chunks), w'))))"

section \<open>Retrieval and answer generation\<close>

text \<open>The test \<open>point.score and point.score >= score_threshold\<close>: an absent score and the
  score \<open>0.0\<close> are both falsy.\<close>

definition passes_threshold :: "real \<Rightarrow> scored_point \<Rightarrow> bool" where
  "passes_threshold score_threshold point =
     (case sp_score point of None \<Rightarrow> False | Some s \<Rightarrow> s \<noteq> 0 \<and> s \<ge> score_threshold)"

definition to_retrieved :: "scored_point \<Rightarrow> retrieved_chunk" where
  "to_retrieved point =
     \<lparr>rc_text = (case pl_text (sp_payload point) of None \<Rightarrow> [] | Some t \<Rightarrow> t),
      rc_source = (case pl_source (sp_payload point) of None \<Rightarrow> ''unknown'' | Some s \<Rightarrow> s),
      rc_score = (case sp_score point of None \<Rightarrow> 0 | Some s \<Rightarrow> s)\<rparr>"

text \<open>The filter loop of \<open>retrieve\<close>.\<close>

fun filter_by_score :: "real \<Rightarrow> scored_point list \<Rightarrow> retrieved_chunk list \<Rightarrow> retrieved_chunk list" where
  "filter_by_score score_threshold [] relevant_chunks = relevant_chunks"
| "filter_by_score score_threshold (point # rest) relevant_chunks =
     filter_by_score score_threshold rest
       (if passes_threshold score_threshold point then relevant_chunks @ [to_retrieved point]
        else relevant_chunks)"

definition retrieve :: "services \<Rightarrow> world \<Rightarrow> string \<Rightarrow> int \<Rightarrow> real \<Rightarrow> exn + retrieved_chunk list" where
  "retrieve sv w question top_k score_threshold =
     (case encode sv [question] of
        Inl e \<Rightarrow> Inl e
      | Inr embs \<Rightarrow>
          (case embs of
             [] \<Rightarrow> Inl IndexError
           | question_embedding # _ \<Rightarrow>
               (case query_points sv (collection w) question_embedding top_k of
                  Inl e \<Rightarrow> Inl e
                | Inr search_results \<Rightarrow> Inr (filter_by_score score_threshold search_results []))))"

definition newline :: string where
  "newline = [CHR 0x0A]"

definition format_chunk :: "retrieved_chunk \<Rightarrow> string" where
  "format_chunk c = ''[Source: '' @ rc_source c @ '']'' @ newline @ rc_text c"

definition make_prompt :: "string \<Rightarrow> retrieved_chunk list \<Rightarrow> string" where
  "make_prompt question context_chunks =
     (let context_text = join (newline @ newline) (map format_chunk context_chunks) in
      ''Answer the question using the provided context. If the context does not contain relevant information, say you don't know.''
      @ newline @ newline @ ''Context:'' @ newline @ context_text
      @ newline @ newline @ ''Question: '' @ question
      @ newline @ newline @ ''Answer:'')"

definition generate_answer :: "services \<Rightarrow> world \<Rightarrow> string \<Rightarrow> retrieved_chunk list \<Rightarrow> string \<times> world" where
  "generate_answer sv w question context_chunks =
     (let prompt = make_prompt question context_chunks;
          w' = w\<lparr>llm_prompts := llm_prompts w @ [prompt]\<rparr> in
      case ollama_generate sv prompt of
        Inr response \<Rightarrow> (response, w')
      | Inl e \<Rightarrow> (''Error generating answer: '' @ str_exn e, w'))"

definition no_information :: string where
  "no_information =
     ''I couldn't find any relevant information in the knowledge base to answer this question.''"

definition query :: "services \<Rightarrow> world \<Rightarrow> string \<Rightarrow> int \<Rightarrow> real \<Rightarrow> (exn + query_result) \<times> world" where
  "query sv w question top_k score_threshold =
     (case retrieve sv w question top_k score_threshold of
        Inl e \<Rightarrow> (Inl e, w)
      | Inr chunks \<Rightarrow>
          if chunks = [] then
            (Inr \<lparr>answer = no_information, qr_chunks = [], num_chunks = 0\<rparr>, w)
          else
            (case generate_answer sv w question chunks of
               (ans, w') \<Rightarrow> (Inr \<lparr>answer = ans, qr_chunks = chunks, num_chunks = length chunks\<rparr>, w')))"

section \<open>Reference order of chunks and sample collaborators\<close>

text \<open>
  The chunk order the specification describes, given the split output of every source
  text: the source texts in input order (numbered from \<open>idx\<close>) and, within each, the split
  chunks in split order, numbered from 0.
\<close>

definition chunks_in_order :: "string \<Rightarrow> nat \<Rightarrow> string list list \<Rightarrow> chunk list" where
  "chunks_in_order source idx splits =
     concat (map (\<lambda>(i, cs). map (\<lambda>(j, c). \<lparr>ch_text = cleaned_text c, ch_source = source,
                                            original_index = i, chunk_index = j\<rparr>) (enumerate 0 cs))
               (enumerate idx splits))"

text \<open>Sample search hits, with the scores 0.9, 0.5 and 0.2.\<close>

definition demo_hits :: "scored_point list" where
  "demo_hits =
     [\<lparr>sp_payload = \<lparr>pl_text = Some ''alpha'', pl_source = Some ''a.pdf'',
                      pl_original_index = Some 0, pl_chunk_index = Some 0\<rparr>, sp_score = Some (9/10)\<rparr>,
      \<lparr>sp_payload = \<lparr>pl_text = Some ''beta'', pl_source = None,
                      pl_original_index = Some 1, pl_chunk_index = Some 0\<rparr>, sp_score = Some (5/10)\<rparr>,
      \<lparr>sp_payload = \<lparr>pl_text = Some ''gamma'', pl_source = Some ''b.pdf'',
                      pl_original_index = Some 0, pl_chunk_index = Some 0\<rparr>, sp_score = Some (2/10)\<rparr>]"

text \<open>Sample collaborators: a loader that knows two documents, a splitter that returns its
  text as one chunk, an encoder that gives one vector for each text, a store that answers a
  query with the first \<open>top_k\<close> sample hits (and rejects a limit below 1), and a
  language model that is down.\<close>

definition demo_services :: services where
  "demo_services =
     \<lparr>pdf_load = (\<lambda>p. if p = ''docs/A.pdf'' then Inr [''1 alpha'', ''2 beta'', ''3'', ''4 delta'', ''5 eps'']
                     else if p = ''docs/B.pdf'' then Inr [''one'', ''two'', ''three'']
                     else Inl (Raised ''no such file'')),
      whisper_load_fault = None,
      whisper_transcribe = (\<lambda>p. Inl (Raised ''unsupported audio'')),
      split_text = (\<lambda>t. Inr [t]),
      encode = (\<lambda>ts. Inr (map (\<lambda>t. [1]) ts)),
      get_collection_fault = None,
      upsert_fault = None,
      query_points = (\<lambda>col v k. if k < 1 then Inl (Raised ''limit must be positive'')
                                 else Inr (take (nat k) demo_hits)),
      ollama_generate = (\<lambda>p. Inl (Raised ''connection refused''))\<rparr>"

definition empty_world :: world where
  "empty_world = \<lparr>collection = [], whisper_model = False, llm_prompts = []\<rparr>"

text \<open>A collection that already holds one point.\<close>

definition demo_world :: world where
  "demo_world =
     \<lparr>collection = [\<lparr>pt_id = 0, pt_vector = [1],
                      pt_payload = \<lparr>pl_text = Some ''old'', pl_source = Some ''old.pdf'',
                                    pl_original_index = Some 0, pl_chunk_index = Some 0\<rparr>\<rparr>],
      whisper_model = False, llm_prompts = []\<rparr>"

text \<open>Two search hits, the second with the score 0.0 (a vector orthogonal to the query).\<close>

definition zero_score_hits :: "scored_point list" where
  "zero_score_hits =
     [\<lparr>sp_payload = \<lparr>pl_text = Some ''alpha'', pl_source = Some ''a.pdf'',
                      pl_original_index = Some 0, pl_chunk_index = Some 0\<rparr>, sp_score = Some (5/10)\<rparr>,
      \<lparr>sp_payload = \<lparr>pl_text = Some ''beta'', pl_source = Some ''a.pdf'',
                      pl_original_index = Some 1, pl_chunk_index = Some 0\<rparr>, sp_score = Some 0\<rparr>]"

text \<open>
  The batch the specification describes for one ingestion, given the chunks and their
  embeddings: one point for each chunk that has an embedding; the point at a position of
  the batch has the id \<open>start_id + position\<close>, the embedding at that position and, as its
  payload, the fields of the chunk at that position.
\<close>

definition point_batch :: "nat \<Rightarrow> chunk list \<Rightarrow> vector list \<Rightarrow> point_struct list" where
  "point_batch start_id chunks embeddings =
     map (\<lambda>position.
            \<lparr>pt_id = start_id + position, pt_vector = embeddings ! position,
             pt_payload = \<lparr>pl_text = Some (ch_text (chunks ! position)),
                           pl_source = Some (ch_source (chunks ! position)),
                           pl_original_index = Some (original_index (chunks ! position)),
                           pl_chunk_index = Some (chunk_index (chunks ! position))\<rparr>\<rparr>)
         [0..<min (length chunks) (length embeddings)]"

section \<open>The Chunker\<close>

subsection \<open>The two loops\<close>

lemma clean_and_format_eq:
  "clean_and_format src idx k cs acc =
     acc @ map (\<lambda>(j, c). \<lparr>ch_text = cleaned_text c, ch_source = src,
                           original_index = idx, chunk_index = j\<rparr>) (enumerate k cs)"
  by (induction cs arbitrary: k acc) simp_all

lemma chunk_loop_eq:
  "chunk_loop sp src idx ts acc = Inr out \<Longrightarrow>
     \<exists>splits. map sp ts = map Inr splits \<and> out = acc @ chunks_in_order src idx splits"
proof (induction ts arbitrary: idx acc)
  case Nil
  then show ?case by (simp add: chunks_in_order_def)
next
  case (Cons t ts)
  from Cons.prems obtain cs where sp: "sp t = Inr cs"
    and rest: "chunk_loop sp src (Suc idx) ts (clean_and_format src idx 0 cs acc) = Inr out"
    by (auto split: sum.splits)
  from Cons.IH [OF rest] obtain splits where
    m: "map sp ts = map Inr splits" and
    o: "out = clean_and_format src idx 0 cs acc @ chunks_in_order src (Suc idx) splits"
    by blast
  show ?case
    by (rule exI [of _ "cs # splits"]) (simp add: sp m o clean_and_format_eq chunks_in_order_def)
qed

lemma chunk_loop_total:
  "map sp ts = map Inr splits \<Longrightarrow> \<exists>out. chunk_loop sp src idx ts acc = Inr out"
proof (induction ts arbitrary: idx acc splits)
  case Nil
  then show ?case by simp
next
  case (Cons t ts)
  then show ?case by (cases splits) auto
qed

lemma chunk_text_eq:
  assumes "chunk_text sv texts source = Inr out"
  shows "\<exists>splits. map (split_text sv) texts = map Inr splits \<and> out = chunks_in_order source 0 splits"
  using chunk_loop_eq [of "split_text sv" source 0 texts "[]" out] assms
  by (simp add: chunk_text_def)

lemma map_Inr_nth:
  assumes "map sp ts = map Inr splits" "i < length ts"
  shows "sp (ts ! i) = Inr (splits ! i)"
proof -
  from assms(1) have len: "length ts = length splits" by (metis length_map)
  from assms(1) have "map sp ts ! i = map Inr splits ! i" by simp
  with assms(2) len show ?thesis by simp
qed

lemma in_chunks_in_order:
  assumes "c \<in> set (chunks_in_order src idx splits)"
  shows "idx \<le> original_index c \<and> original_index c < idx + length splits
         \<and> chunk_index c < length (splits ! (original_index c - idx))
         \<and> ch_text c = cleaned_text (splits ! (original_index c - idx) ! chunk_index c)
         \<and> ch_source c = src"
  using assms by (auto simp: chunks_in_order_def in_set_enumerate_eq)

lemma block_group:
  "map chunk_index (filter (\<lambda>c. original_index c = i)
      (map (\<lambda>(j, c). \<lparr>ch_text = cleaned_text c, ch_source = src,
                       original_index = idx, chunk_index = j\<rparr>) (enumerate k cs)))
   = (if i = idx then [k..<k + length cs] else [])"
proof (cases "i = idx")
  case True
  have "map chunk_index (map (\<lambda>(j, c). \<lparr>ch_text = cleaned_text c, ch_source = src,
                           original_index = idx, chunk_index = j\<rparr>) (enumerate k cs))
        = map fst (enumerate k cs)"
    by (simp add: split_def comp_def del: map_fst_enumerate)
  with True show ?thesis by (simp add: split_def del: map_map)
next
  case False
  then show ?thesis by (simp add: filter_empty_conv split_def)
qed

lemma chunks_in_order_group:
  "idx \<le> i \<Longrightarrow> i < idx + length splits \<Longrightarrow>
   map chunk_index (filter (\<lambda>c. original_index c = i) (chunks_in_order src idx splits))
     = [0..<length (splits ! (i - idx))]"
proof (induction splits arbitrary: idx)
  case Nil
  then show ?case by simp
next
  case (Cons s ss)
  have unfold: "chunks_in_order src idx (s # ss) =
      map (\<lambda>(j, c). \<lparr>ch_text = cleaned_text c, ch_source = src,
                       original_index = idx, chunk_index = j\<rparr>) (enumerate 0 s)
      @ chunks_in_order src (Suc idx) ss"
    by (simp add: chunks_in_order_def)
  show ?case
  proof (cases "i = idx")
    case True
    have "\<And>c. c \<in> set (chunks_in_order src (Suc idx) ss) \<Longrightarrow> original_index c \<noteq> i"
      using True by (fastforce dest: in_chunks_in_order)
    then have "filter (\<lambda>c. original_index c = i) (chunks_in_order src (Suc idx) ss) = []"
      by (simp add: filter_empty_conv)
    then show ?thesis using True by (simp add: unfold block_group)
  next
    case False
    with Cons.prems have "Suc idx \<le> i" "i < Suc idx + length ss" by auto
    from Cons.IH [OF this]
    have "map chunk_index (filter (\<lambda>c. original_index c = i) (chunks_in_order src (Suc idx) ss))
            = [0..<length (ss ! (i - Suc idx))]" .
    moreover have "(s # ss) ! (i - idx) = ss ! (i - Suc idx)"
      using False Cons.prems by (simp add: nth_Cons')
    ultimately show ?thesis using False by (simp add: unfold block_group)
  qed
qed

subsection \<open>The cleanup\<close>

lemma cleaned_text_no_digit: "s = [] \<or> \<not> is_digit (hd s) \<Longrightarrow> cleaned_text s = s"
  by (cases s) (auto simp: cleaned_text_def)

lemma cleaned_text_digit:
  assumes "s \<noteq> []" "is_digit (hd s)"
  shows "\<exists>ds ws. s = ds @ ws @ cleaned_text s \<and> ds \<noteq> [] \<and> (\<forall>c\<in>set ds. is_digit c)
           \<and> (\<forall>c\<in>set ws. is_space c)
           \<and> (cleaned_text s = [] \<or> \<not> is_space (hd (cleaned_text s)))
           \<and> (ws = [] \<longrightarrow> cleaned_text s = [] \<or> \<not> is_digit (hd (cleaned_text s)))"
proof -
  let ?ds = "takeWhile is_digit s"
  let ?r = "dropWhile is_digit s"
  let ?ws = "takeWhile is_space ?r"
  from assms have ne: "?ds \<noteq> []" by (cases s) auto
  then have ct: "cleaned_text s = dropWhile is_space ?r" by (simp add: cleaned_text_def)
  have split: "s = ?ds @ ?ws @ cleaned_text s" by (simp add: ct)
  have d: "\<forall>c\<in>set ?ds. is_digit c" by (auto dest: set_takeWhileD)
  have w: "\<forall>c\<in>set ?ws. is_space c" by (auto dest: set_takeWhileD)
  have e: "cleaned_text s = [] \<or> \<not> is_space (hd (cleaned_text s))"
    unfolding ct by (metis hd_dropWhile)
  have f: "?ws = [] \<longrightarrow> cleaned_text s = [] \<or> \<not> is_digit (hd (cleaned_text s))"
  proof
    assume "?ws = []"
    then have "dropWhile is_space ?r = ?r"
      by (metis append_Nil takeWhile_dropWhile_id)
    then show "cleaned_text s = [] \<or> \<not> is_digit (hd (cleaned_text s))"
      unfolding ct by (metis hd_dropWhile)
  qed
  from split ne d w e f show ?thesis by blast
qed

lemma cleaned_text_empty_iff:
  "cleaned_text raw = [] \<longleftrightarrow>
     raw = [] \<or> (is_digit (hd raw) \<and> (\<forall>x\<in>set (dropWhile is_digit raw). is_space x))"
  by (cases raw) (auto simp: cleaned_text_def dropWhile_eq_Nil_conv)

lemmas char_class_defs = is_digit_def is_space_def code_point_def

text \<open>
  Claim C4, as the specification states it, has the cleanup leave a chunk alone when its
  leading digits are not followed by whitespace.  The pattern makes the whitespace
  optional: the chunk \<open>12abc\<close> starts with digits that no whitespace follows, and it loses
  them all the same.
\<close>

theorem cleaned_text_digits_without_whitespace:
  "is_digit (hd ''12abc'') \<and> \<not> is_space (hd (dropWhile is_digit ''12abc''))
   \<and> cleaned_text ''12abc'' = ''abc'' \<and> cleaned_text ''12abc'' \<noteq> ''12abc''"
  by (simp add: cleaned_text_def char_class_defs)

text \<open>
  Claim C4, amended: the cleanup removes exactly a leading run of one or more digits
  together with all the whitespace that directly follows it (possibly none), and nothing
  else.  A chunk that does not start with a digit is returned unchanged; a chunk that does
  is its longest digit prefix, then the longest run of whitespace, then the result.  So
  \<open>12 Introduction to...\<close> becomes \<open>Introduction to...\<close> and \<open>Chapter 12 covers...\<close> stays as
  it is.
\<close>

theorem cleaned_text_removes_number_prefix:
  "(s = [] \<or> \<not> is_digit (hd s) \<longrightarrow> cleaned_text s = s) \<and>
   (s \<noteq> [] \<and> is_digit (hd s) \<longrightarrow>
      (\<exists>ds ws. s = ds @ ws @ cleaned_text s \<and> ds \<noteq> [] \<and> (\<forall>c\<in>set ds. is_digit c)
           \<and> (\<forall>c\<in>set ws. is_space c)
           \<and> (cleaned_text s = [] \<or> \<not> is_space (hd (cleaned_text s)))
           \<and> (ws = [] \<longrightarrow> cleaned_text s = [] \<or> \<not> is_digit (hd (cleaned_text s))))) \<and>
   cleaned_text ''12 Introduction to...'' = ''Introduction to...'' \<and>
   cleaned_text ''Chapter 12 covers...'' = ''Chapter 12 covers...''"
proof (intro conjI impI)
  assume "s = [] \<or> \<not> is_digit (hd s)"
  then show "cleaned_text s = s" by (rule cleaned_text_no_digit)
next
  assume "s \<noteq> [] \<and> is_digit (hd s)"
  then show "\<exists>ds ws. s = ds @ ws @ cleaned_text s \<and> ds \<noteq> [] \<and> (\<forall>c\<in>set ds. is_digit c)
           \<and> (\<forall>c\<in>set ws. is_space c)
           \<and> (cleaned_text s = [] \<or> \<not> is_space (hd (cleaned_text s)))
           \<and> (ws = [] \<longrightarrow> cleaned_text s = [] \<or> \<not> is_digit (hd (cleaned_text s)))"
    using cleaned_text_digit [of s] by blast
next
  show "cleaned_text ''12 Introduction to...'' = ''Introduction to...''"
    by (simp add: cleaned_text_def char_class_defs)
next
  show "cleaned_text ''Chapter 12 covers...'' = ''Chapter 12 covers...''"
    by (simp add: cleaned_text_def char_class_defs)
qed

theorem cleaned_text_removes_number_prefix_witness:
  "(\<not> is_digit (hd ''Page 7'') \<and> cleaned_text ''Page 7'' = ''Page 7'') \<and>
   (''7 pages'' \<noteq> [] \<and> is_digit (hd ''7 pages'') \<and>
      (\<exists>ds ws. ''7 pages'' = ds @ ws @ cleaned_text ''7 pages'' \<and> ds \<noteq> []
           \<and> (\<forall>c\<in>set ds. is_digit c) \<and> (\<forall>c\<in>set ws. is_space c)
           \<and> (cleaned_text ''7 pages'' = [] \<or> \<not> is_space (hd (cleaned_text ''7 pages'')))
           \<and> (ws = [] \<longrightarrow> cleaned_text ''7 pages'' = []
                 \<or> \<not> is_digit (hd (cleaned_text ''7 pages'')))))"
proof -
  have a: "\<not> is_digit (hd ''Page 7'')"
    by (simp add: char_class_defs)
  have b: "''7 pages'' \<noteq> []" "is_digit (hd ''7 pages'')"
    by (simp_all add: char_class_defs)
  from a cleaned_text_removes_number_prefix [of "''Page 7''"]
  have "cleaned_text ''Page 7'' = ''Page 7''" by blast
  moreover from b cleaned_text_removes_number_prefix [of "''7 pages''"]
  have "\<exists>ds ws. ''7 pages'' = ds @ ws @ cleaned_text ''7 pages'' \<and> ds \<noteq> []
           \<and> (\<forall>c\<in>set ds. is_digit c) \<and> (\<forall>c\<in>set ws. is_space c)
           \<and> (cleaned_text ''7 pages'' = [] \<or> \<not> is_space (hd (cleaned_text ''7 pages'')))
           \<and> (ws = [] \<longrightarrow> cleaned_text ''7 pages'' = []
                 \<or> \<not> is_digit (hd (cleaned_text ''7 pages'')))"
    by blast
  ultimately show ?thesis using a b by (intro conjI)
qed

subsection \<open>Chunk texts\<close>

text \<open>
  Claim C5, as the specification states it, has every emitted chunk carry a non-empty
  text.  The Chunker drops nothing: a page that holds only its page number \<open>42\<close> is split
  into the chunk \<open>42\<close>, which is cleaned to the empty string and emitted.
\<close>

theorem chunk_text_emits_empty_text:
  "chunk_text demo_services [''42''] ''doc.pdf''
     = Inr [\<lparr>ch_text = [], ch_source = ''doc.pdf'', original_index = 0, chunk_index = 0\<rparr>]"
  by (simp add: chunk_text_def demo_services_def cleaned_text_def char_class_defs)

text \<open>
  Claim C5, amended: every chunk emitted by the Chunker has as its text the cleaned form
  of its split chunk (chunk number \<open>chunk_index\<close> of the split of text number
  \<open>original_index\<close>); that text is empty exactly when the split chunk is empty or consists
  of digits followed by nothing but whitespace, and non-empty in every other case.
\<close>

theorem chunk_text_text_empty_iff:
  assumes "chunk_text sv texts source = Inr out" and "c \<in> set out"
  shows "\<exists>cs raw. original_index c < length texts
          \<and> split_text sv (texts ! original_index c) = Inr cs
          \<and> chunk_index c < length cs \<and> raw = cs ! chunk_index c
          \<and> ch_text c = cleaned_text raw
          \<and> (ch_text c = [] \<longleftrightarrow>
                raw = [] \<or> (is_digit (hd raw) \<and> (\<forall>x\<in>set (dropWhile is_digit raw). is_space x)))"
proof -
  from assms(1) obtain splits where
    m: "map (split_text sv) texts = map Inr splits" and o: "out = chunks_in_order source 0 splits"
    by (auto dest: chunk_text_eq)
  from m have len: "length texts = length splits" by (metis length_map)
  from assms(2) o have b: "original_index c < length splits"
      "chunk_index c < length (splits ! original_index c)"
      "ch_text c = cleaned_text (splits ! original_index c ! chunk_index c)"
    using in_chunks_in_order [of c source 0 splits] by simp_all
  from b(1) len have "split_text sv (texts ! original_index c) = Inr (splits ! original_index c)"
    using map_Inr_nth [OF m] by simp
  with b len show ?thesis
    by (simp add: cleaned_text_empty_iff)
qed

theorem chunk_text_text_empty_iff_witness:
  "chunk_text demo_services [''7 pages'', ''42''] ''doc.pdf''
     = Inr [\<lparr>ch_text = ''pages'', ch_source = ''doc.pdf'', original_index = 0, chunk_index = 0\<rparr>,
            \<lparr>ch_text = [], ch_source = ''doc.pdf'', original_index = 1, chunk_index = 0\<rparr>]
   \<and> (\<exists>cs raw. split_text demo_services ([''7 pages'', ''42''] ! 1) = Inr cs \<and> raw = cs ! 0
          \<and> [] = cleaned_text raw
          \<and> is_digit (hd raw) \<and> (\<forall>x\<in>set (dropWhile is_digit raw). is_space x))"
proof -
  let ?c = "\<lparr>ch_text = [], ch_source = ''doc.pdf'', original_index = 1, chunk_index = 0\<rparr>"
  let ?out = "[\<lparr>ch_text = ''pages'', ch_source = ''doc.pdf'', original_index = 0, chunk_index = 0\<rparr>, ?c]"
  have run: "chunk_text demo_services [''7 pages'', ''42''] ''doc.pdf'' = Inr ?out"
    by (simp add: chunk_text_def demo_services_def cleaned_text_def char_class_defs)
  have mem: "?c \<in> set ?out" by simp
  from chunk_text_text_empty_iff [OF run mem] obtain cs raw where
    r: "split_text demo_services ([''7 pages'', ''42''] ! original_index ?c) = Inr cs"
       "raw = cs ! chunk_index ?c" "ch_text ?c = cleaned_text raw"
       "ch_text ?c = [] \<longleftrightarrow>
          raw = [] \<or> (is_digit (hd raw) \<and> (\<forall>x\<in>set (dropWhile is_digit raw). is_space x))"
    by blast
  from r(1,2) have "raw = ''42''" by (auto simp: demo_services_def)
  with r(4) have d: "is_digit (hd raw) \<and> (\<forall>x\<in>set (dropWhile is_digit raw). is_space x)"
    by simp
  from r(1,2,3) d have "\<exists>cs raw. split_text demo_services ([''7 pages'', ''42''] ! 1) = Inr cs
          \<and> raw = cs ! 0 \<and> [] = cleaned_text raw
          \<and> is_digit (hd raw) \<and> (\<forall>x\<in>set (dropWhile is_digit raw). is_space x)"
    by auto
  with run show ?thesis by (rule_tac conjI)
qed

subsection \<open>Chunk order\<close>

text \<open>
  Claim C6: when \<open>chunk_text\<close> returns, its output is the chunks of the source texts in
  input order and, within each text, in split order; the \<open>original_index\<close> of a chunk is
  the position of its source text and its \<open>chunk_index\<close> the position in that text's split
  (this is \<open>chunks_in_order\<close>), and the \<open>chunk_index\<close> values of the chunks of one
  \<open>original_index\<close>, read in output order, are \<open>0, 1, ..., n - 1\<close> for the \<open>n\<close> chunks of
  that text.
\<close>

theorem chunk_text_order:
  assumes "chunk_text sv texts source = Inr out"
  shows "\<exists>splits. map (split_text sv) texts = map Inr splits
           \<and> out = chunks_in_order source 0 splits
           \<and> (\<forall>i<length texts.
                 map chunk_index (filter (\<lambda>c. original_index c = i) out)
                   = [0..<length (splits ! i)])"
proof -
  from chunk_text_eq [OF assms] obtain splits where
    m: "map (split_text sv) texts = map Inr splits" and o: "out = chunks_in_order source 0 splits"
    by blast
  from m have len: "length texts = length splits" by (metis length_map)
  have "\<forall>i<length texts.
          map chunk_index (filter (\<lambda>c. original_index c = i) out) = [0..<length (splits ! i)]"
    using chunks_in_order_group [of 0 _ splits source] by (simp add: o len)
  with m o show ?thesis by blast
qed

text \<open>\<open>chunk_text\<close> returns whenever the splitter returns for every text.\<close>

lemma chunk_text_total:
  assumes "map (split_text sv) texts = map Inr splits"
  shows "chunk_text sv texts source = Inr (chunks_in_order source 0 splits)"
proof -
  from chunk_loop_total [OF assms] obtain out where
    r: "chunk_loop (split_text sv) source 0 texts [] = Inr out" by blast
  from chunk_loop_eq [OF r] obtain splits' where
    m: "map (split_text sv) texts = map Inr splits'" and o: "out = chunks_in_order source 0 splits'"
    by auto
  from m assms have "map Inr splits' = (map Inr splits :: (exn + string list) list)" by simp
  then have "splits' = splits" by (simp add: inj_map_eq_map)
  with r o show ?thesis by (simp add: chunk_text_def)
qed

theorem chunk_text_order_witness:
  "chunk_text (demo_services\<lparr>split_text := (\<lambda>t. Inr [take 8 t, drop 8 t])\<rparr>)
       [''12 alpha beta'', ''gamma delta''] ''a.pdf''
     = Inr [\<lparr>ch_text = ''alpha'', ch_source = ''a.pdf'', original_index = 0, chunk_index = 0\<rparr>,
            \<lparr>ch_text = '' beta'', ch_source = ''a.pdf'', original_index = 0, chunk_index = 1\<rparr>,
            \<lparr>ch_text = ''gamma de'', ch_source = ''a.pdf'', original_index = 1, chunk_index = 0\<rparr>,
            \<lparr>ch_text = ''lta'', ch_source = ''a.pdf'', original_index = 1, chunk_index = 1\<rparr>]
   \<and> (\<exists>splits. map (\<lambda>t. Inr [take 8 t, drop 8 t] :: exn + string list)
                   [''12 alpha beta'', ''gamma delta''] = map Inr splits
         \<and> [\<lparr>ch_text = ''alpha'', ch_source = ''a.pdf'', original_index = 0, chunk_index = 0\<rparr>,
            \<lparr>ch_text = '' beta'', ch_source = ''a.pdf'', original_index = 0, chunk_index = 1\<rparr>,
            \<lparr>ch_text = ''gamma de'', ch_source = ''a.pdf'', original_index = 1, chunk_index = 0\<rparr>,
            \<lparr>ch_text = ''lta'', ch_source = ''a.pdf'', original_index = 1, chunk_index = 1\<rparr>]
            = chunks_in_order ''a.pdf'' 0 splits)"
proof -
  let ?sv = "demo_services\<lparr>split_text := (\<lambda>t. Inr [take 8 t, drop 8 t])\<rparr>"
  let ?out = "[\<lparr>ch_text = ''alpha'', ch_source = ''a.pdf'', original_index = 0, chunk_index = 0\<rparr>,
            \<lparr>ch_text = '' beta'', ch_source = ''a.pdf'', original_index = 0, chunk_index = 1\<rparr>,
            \<lparr>ch_text = ''gamma de'', ch_source = ''a.pdf'', original_index = 1, chunk_index = 0\<rparr>,
            \<lparr>ch_text = ''lta'', ch_source = ''a.pdf'', original_index = 1, chunk_index = 1\<rparr>]"
  have run: "chunk_text ?sv [''12 alpha beta'', ''gamma delta''] ''a.pdf'' = Inr ?out"
    by (simp add: chunk_text_def demo_services_def cleaned_text_def char_class_defs)
  from chunk_text_order [OF run] obtain splits where
    "map (split_text ?sv) [''12 alpha beta'', ''gamma delta''] = map Inr splits"
    "?out = chunks_in_order ''a.pdf'' 0 splits"
    by blast
  then have "\<exists>splits. map (\<lambda>t. Inr [take 8 t, drop 8 t] :: exn + string list)
                   [''12 alpha beta'', ''gamma delta''] = map Inr splits
         \<and> ?out = chunks_in_order ''a.pdf'' 0 splits"
    by (intro exI [of _ splits]) simp
  with run show ?thesis by (rule_tac conjI)
qed

section \<open>Ingestion into the vector store\<close>

subsection \<open>Point ids and the upsert\<close>

lemma create_points_enumerate:
  "create_points start_id idx zs acc
     = acc @ map (\<lambda>(i, cv).
                    \<lparr>pt_id = start_id + i, pt_vector = snd cv,
                     pt_payload = \<lparr>pl_text = Some (ch_text (fst cv)),
                                   pl_source = Some (ch_source (fst cv)),
                                   pl_original_index = Some (original_index (fst cv)),
                                   pl_chunk_index = Some (chunk_index (fst cv))\<rparr>\<rparr>)
                 (enumerate idx zs)"
proof (induction zs arbitrary: idx acc)
  case Nil
  then show ?case by simp
next
  case (Cons z zs)
  obtain c v where z: "z = (c, v)" by (cases z)
  show ?case by (simp add: z Cons.IH)
qed

lemma create_points_batch:
  "create_points start_id 0 (zip chunks embeddings) [] = point_batch start_id chunks embeddings"
proof (rule nth_equalityI)
  show "length (create_points start_id 0 (zip chunks embeddings) [])
          = length (point_batch start_id chunks embeddings)"
    by (simp add: create_points_enumerate point_batch_def)
next
  fix i
  assume "i < length (create_points start_id 0 (zip chunks embeddings) [])"
  then have i: "i < length chunks" "i < length embeddings"
    by (simp_all add: create_points_enumerate)
  then show "create_points start_id 0 (zip chunks embeddings) [] ! i
               = point_batch start_id chunks embeddings ! i"
    by (simp add: create_points_enumerate point_batch_def nth_enumerate_eq)
qed

lemma map_shift_upt: "map (\<lambda>i. n + i) [0..<m] = [n..<n + m]"
  by (induction m) simp_all

lemma point_batch_ids:
  "map pt_id (point_batch start_id chunks embeddings)
     = map (\<lambda>position. start_id + position) [0..<min (length chunks) (length embeddings)]"
  by (simp add: point_batch_def comp_def)

lemma length_point_batch:
  "length (point_batch start_id chunks embeddings) = min (length chunks) (length embeddings)"
  by (simp add: point_batch_def)

lemma upsert_point_fresh:
  "pt_id p \<notin> set (map pt_id col) \<Longrightarrow> upsert_point p col = col @ [p]"
  by (induction col) auto

lemma upsert_fresh:
  "distinct (map pt_id pts) \<Longrightarrow> set (map pt_id pts) \<inter> set (map pt_id col) = {} \<Longrightarrow>
   upsert col pts = col @ pts"
proof (induction pts arbitrary: col)
  case Nil
  then show ?case by (simp add: upsert_def)
next
  case (Cons p pts)
  from Cons.prems have fresh: "pt_id p \<notin> set (map pt_id col)" by auto
  from Cons.prems have "distinct (map pt_id pts)"
    "set (map pt_id pts) \<inter> set (map pt_id (col @ [p])) = {}" by auto
  from Cons.IH [OF this] have "upsert (col @ [p]) pts = (col @ [p]) @ pts" .
  then show ?case by (simp add: upsert_def upsert_point_fresh [OF fresh])
qed

lemma upsert_run:
  assumes "map pt_id col = [0..<length col]"
    and "map pt_id pts = map (\<lambda>i. length col + i) [0..<length pts]"
  shows "upsert col pts = col @ pts \<and> map pt_id (col @ pts) = [0..<length col + length pts]"
proof -
  have ids: "map pt_id pts = [length col..<length col + length pts]"
    by (simp only: assms(2) map_shift_upt)
  then have "distinct (map pt_id pts)" by simp
  moreover have "set (map pt_id pts) \<inter> set (map pt_id col) = {}"
    unfolding ids assms(1) by auto
  ultimately have "upsert col pts = col @ pts" by (rule upsert_fresh)
  moreover have "map pt_id (col @ pts) = [0..<length col + length pts]"
    using assms(1) ids upt_add_eq_append [of 0 "length col" "length pts"] by simp
  ultimately show ?thesis by simp
qed

lemma upsert_point_batch:
  assumes "map pt_id col = [0..<length col]"
  shows "upsert col (point_batch (length col) chunks embeddings)
           = col @ point_batch (length col) chunks embeddings
         \<and> map pt_id (upsert col (point_batch (length col) chunks embeddings))
           = [0..<length col + min (length chunks) (length embeddings)]"
proof -
  let ?pts = "point_batch (length col) chunks embeddings"
  have "map pt_id ?pts = map (\<lambda>i. length col + i) [0..<length ?pts]"
    by (simp only: point_batch_ids length_point_batch)
  from upsert_run [OF assms this] show ?thesis by (simp add: length_point_batch)
qed

lemma embed_and_store_eq:
  assumes "encode sv (map ch_text chunks) = Inr embeddings" and "upsert_fault sv = None"
  shows "embed_and_store sv w chunks start_id
           = (Inr (start_id + length (point_batch start_id chunks embeddings)),
              w\<lparr>collection := upsert (collection w) (point_batch start_id chunks embeddings)\<rparr>)"
  using assms by (simp add: embed_and_store_def create_points_batch Let_def)

lemma transcribe_audio_keeps_collection:
  "transcribe_audio sv w audio_path = (r, w1) \<Longrightarrow> collection w1 = collection w"
  by (auto simp: transcribe_audio_def split: if_splits option.splits)

text \<open>
  Claim C7.  An ingestion whose loader (or transcriber), chunker, encoder and insert all
  succeed returns the number of chunks and leaves the collection with \<open>point_batch\<close>
  upserted into it: one point for each embedded chunk, carrying that chunk's fields and
  the id \<open>start_id + position\<close>, where \<open>start_id\<close> is the number of points in the collection
  before the ingestion, or 0 when that number cannot be read.  This holds for
  \<open>process_pdf\<close> and for \<open>process_audio\<close>.  The ids of a batch are
  \<open>start_id, start_id + 1, ...\<close>; when the ids in the collection are \<open>0, ..., count - 1\<close>
  and the batch starts at \<open>count\<close>, the upsert appends the batch without overwriting any
  point and the ids are then \<open>0, ..., count + batch - 1\<close>: no gap and no reuse.
\<close>

theorem ingestion_point_ids:
  "(load_pdf sv path = Inr texts \<and> chunk_text sv texts (basename path) = Inr chunks
      \<and> encode sv (map ch_text chunks) = Inr embeddings \<and> upsert_fault sv = None
    \<longrightarrow> process_pdf sv w path
          = (Inr (length chunks),
             w\<lparr>collection := upsert (collection w)
                  (point_batch (case get_collection_fault sv of
                                  None \<Rightarrow> length (collection w) | Some e \<Rightarrow> 0)
                     chunks embeddings)\<rparr>))
   \<and> (transcribe_audio sv w path = (Inr transcript, w1)
      \<and> chunk_text sv [transcript] (basename path) = Inr chunks
      \<and> encode sv (map ch_text chunks) = Inr embeddings \<and> upsert_fault sv = None
    \<longrightarrow> process_audio sv w path
          = (Inr (length chunks),
             w1\<lparr>collection := upsert (collection w)
                  (point_batch (case get_collection_fault sv of
                                  None \<Rightarrow> length (collection w) | Some e \<Rightarrow> 0)
                     chunks embeddings)\<rparr>))
   \<and> length (point_batch start_id chunks embeddings) = min (length chunks) (length embeddings)
   \<and> map pt_id (point_batch start_id chunks embeddings)
       = map (\<lambda>position. start_id + position) [0..<min (length chunks) (length embeddings)]
   \<and> (map pt_id col = [0..<length col]
    \<longrightarrow> upsert col (point_batch (length col) chunks embeddings)
          = col @ point_batch (length col) chunks embeddings
        \<and> map pt_id (upsert col (point_batch (length col) chunks embeddings))
          = [0..<length col + min (length chunks) (length embeddings)])"
proof (intro conjI impI)
  assume a: "load_pdf sv path = Inr texts \<and> chunk_text sv texts (basename path) = Inr chunks
      \<and> encode sv (map ch_text chunks) = Inr embeddings \<and> upsert_fault sv = None"
  then have e: "encode sv (map ch_text chunks) = Inr embeddings" and u: "upsert_fault sv = None"
    by simp_all
  have start: "(case get_collection sv w of Inl e \<Rightarrow> 0 | Inr n \<Rightarrow> n)
      = (case get_collection_fault sv of None \<Rightarrow> length (collection w) | Some e \<Rightarrow> 0)"
    by (simp add: get_collection_def split: option.splits)
  from a show "process_pdf sv w path
          = (Inr (length chunks),
             w\<lparr>collection := upsert (collection w)
                  (point_batch (case get_collection_fault sv of
                                  None \<Rightarrow> length (collection w) | Some e \<Rightarrow> 0)
                     chunks embeddings)\<rparr>)"
    by (simp add: process_pdf_def Let_def start embed_and_store_eq [OF e u])
next
  assume a: "transcribe_audio sv w path = (Inr transcript, w1)
      \<and> chunk_text sv [transcript] (basename path) = Inr chunks
      \<and> encode sv (map ch_text chunks) = Inr embeddings \<and> upsert_fault sv = None"
  then have e: "encode sv (map ch_text chunks) = Inr embeddings" and u: "upsert_fault sv = None"
    by simp_all
  from a have col: "collection w1 = collection w"
    by (auto dest: transcribe_audio_keeps_collection)
  have start: "(case get_collection sv w1 of Inl e \<Rightarrow> 0 | Inr n \<Rightarrow> n)
      = (case get_collection_fault sv of None \<Rightarrow> length (collection w) | Some e \<Rightarrow> 0)"
    by (simp add: get_collection_def col split: option.splits)
  from a show "process_audio sv w path
          = (Inr (length chunks),
             w1\<lparr>collection := upsert (collection w)
                  (point_batch (case get_collection_fault sv of
                                  None \<Rightarrow> length (collection w) | Some e \<Rightarrow> 0)
                     chunks embeddings)\<rparr>)"
    by (simp add: process_audio_def Let_def start col embed_and_store_eq [OF e u])
next
  show "length (point_batch start_id chunks embeddings) = min (length chunks) (length embeddings)"
    by (rule length_point_batch)
next
  show "map pt_id (point_batch start_id chunks embeddings)
       = map (\<lambda>position. start_id + position) [0..<min (length chunks) (length embeddings)]"
    by (rule point_batch_ids)
next
  assume "map pt_id col = [0..<length col]"
  from upsert_point_batch [OF this, of chunks embeddings]
  show "upsert col (point_batch (length col) chunks embeddings)
          = col @ point_batch (length col) chunks embeddings"
    and "map pt_id (upsert col (point_batch (length col) chunks embeddings))
          = [0..<length col + min (length chunks) (length embeddings)]"
    by (rule conjunct1, rule conjunct2)
qed

text \<open>
  A document of five chunks ingested into the empty collection gets the ids 0 to 4, a
  document of three chunks ingested next gets the ids 5 to 7, and a transcript of one
  chunk ingested after that gets the id 8; every point carries the text and the source of
  its chunk.
\<close>

theorem ingestion_point_ids_witness:
  "\<exists>wA wB wC.
     process_pdf demo_services empty_world ''docs/A.pdf'' = (Inr 5, wA)
     \<and> map pt_id (collection wA) = [0, 1, 2, 3, 4]
     \<and> process_pdf demo_services wA ''docs/B.pdf'' = (Inr 3, wB)
     \<and> map pt_id (collection wB) = [0, 1, 2, 3, 4, 5, 6, 7]
     \<and> process_audio (demo_services\<lparr>whisper_transcribe := (\<lambda>p. Inr ''hello world'')\<rparr>)
           wB ''talks/talk.mp3'' = (Inr 1, wC)
     \<and> map pt_id (collection wC) = [0, 1, 2, 3, 4, 5, 6, 7, 8]
     \<and> map (\<lambda>p. pl_text (pt_payload p)) (collection wC)
         = [Some ''alpha'', Some ''beta'', Some [], Some ''delta'', Some ''eps'',
            Some ''one'', Some ''two'', Some ''three'', Some ''hello world'']
     \<and> map (\<lambda>p. pl_source (pt_payload p)) (collection wC)
         = [Some ''A.pdf'', Some ''A.pdf'', Some ''A.pdf'', Some ''A.pdf'', Some ''A.pdf'',
            Some ''B.pdf'', Some ''B.pdf'', Some ''B.pdf'', Some ''talk.mp3'']"
proof -
  let ?sa = "demo_services\<lparr>whisper_transcribe := (\<lambda>p. Inr ''hello world'')\<rparr>"
  let ?tA = "[''1 alpha'', ''2 beta'', ''3'', ''4 delta'', ''5 eps'']"
  let ?cA = "chunks_in_order ''A.pdf'' 0 [[''1 alpha''], [''2 beta''], [''3''], [''4 delta''], [''5 eps'']]"
  let ?eA = "[[1], [1], [1], [1], [1 :: real]]"
  let ?tB = "[''one'', ''two'', ''three'']"
  let ?cB = "chunks_in_order ''B.pdf'' 0 [[''one''], [''two''], [''three'']]"
  let ?eB = "[[1], [1], [1 :: real]]"
  let ?cC = "chunks_in_order ''talk.mp3'' 0 [[''hello world'']]"
  let ?eC = "[[1 :: real]]"
  let ?wA = "empty_world\<lparr>collection := upsert (collection empty_world) (point_batch 0 ?cA ?eA)\<rparr>"
  let ?wB = "?wA\<lparr>collection := upsert (collection ?wA) (point_batch 5 ?cB ?eB)\<rparr>"
  let ?wB1 = "?wB\<lparr>whisper_model := True\<rparr>"
  let ?wC = "?wB1\<lparr>collection := upsert (collection ?wB) (point_batch 8 ?cC ?eC)\<rparr>"
  have colA: "map pt_id (collection ?wA) = [0, 1, 2, 3, 4]"
    by (simp add: empty_world_def upsert_def point_batch_def chunks_in_order_def)
  then have lenA: "length (collection ?wA) = 5"
    using length_map [of pt_id "collection ?wA"] by simp
  have colB: "map pt_id (collection ?wB) = [0, 1, 2, 3, 4, 5, 6, 7]"
    by (simp add: empty_world_def upsert_def point_batch_def chunks_in_order_def)
  then have lenB: "length (collection ?wB) = 8"
    using length_map [of pt_id "collection ?wB"] by simp
  have hA: "load_pdf demo_services ''docs/A.pdf'' = Inr ?tA
      \<and> chunk_text demo_services ?tA (basename ''docs/A.pdf'') = Inr ?cA
      \<and> encode demo_services (map ch_text ?cA) = Inr ?eA \<and> upsert_fault demo_services = None"
    by (simp add: load_pdf_def chunk_text_def demo_services_def chunks_in_order_def basename_def)
  have hB: "load_pdf demo_services ''docs/B.pdf'' = Inr ?tB
      \<and> chunk_text demo_services ?tB (basename ''docs/B.pdf'') = Inr ?cB
      \<and> encode demo_services (map ch_text ?cB) = Inr ?eB \<and> upsert_fault demo_services = None"
    by (simp add: load_pdf_def chunk_text_def demo_services_def chunks_in_order_def basename_def)
  have hC: "transcribe_audio ?sa ?wB ''talks/talk.mp3'' = (Inr ''hello world'', ?wB1)
      \<and> chunk_text ?sa [''hello world''] (basename ''talks/talk.mp3'') = Inr ?cC
      \<and> encode ?sa (map ch_text ?cC) = Inr ?eC \<and> upsert_fault ?sa = None"
    by (simp add: transcribe_audio_def chunk_text_def demo_services_def chunks_in_order_def
        basename_def empty_world_def)
  have nofault: "get_collection_fault demo_services = None" "get_collection_fault ?sa = None"
    by (simp_all add: demo_services_def)
  from hA ingestion_point_ids [of demo_services "''docs/A.pdf''" ?tA ?cA ?eA empty_world]
  have "process_pdf demo_services empty_world ''docs/A.pdf''
          = (Inr (length ?cA),
             empty_world\<lparr>collection := upsert (collection empty_world)
               (point_batch (case get_collection_fault demo_services of
                               None \<Rightarrow> length (collection empty_world) | Some e \<Rightarrow> 0) ?cA ?eA)\<rparr>)"
    by blast
  then have runA: "process_pdf demo_services empty_world ''docs/A.pdf'' = (Inr 5, ?wA)"
    by (simp add: nofault chunks_in_order_def empty_world_def)
  from hB ingestion_point_ids [of demo_services "''docs/B.pdf''" ?tB ?cB ?eB ?wA]
  have "process_pdf demo_services ?wA ''docs/B.pdf''
          = (Inr (length ?cB),
             ?wA\<lparr>collection := upsert (collection ?wA)
               (point_batch (case get_collection_fault demo_services of
                               None \<Rightarrow> length (collection ?wA) | Some e \<Rightarrow> 0) ?cB ?eB)\<rparr>)"
    by blast
  then have runB: "process_pdf demo_services ?wA ''docs/B.pdf'' = (Inr 3, ?wB)"
    by (simp only: nofault option.case lenA) (simp add: chunks_in_order_def)
  from hC ingestion_point_ids [of ?sa "''talks/talk.mp3''" _ ?cC ?eC ?wB "''hello world''" ?wB1]
  have "process_audio ?sa ?wB ''talks/talk.mp3''
          = (Inr (length ?cC),
             ?wB1\<lparr>collection := upsert (collection ?wB)
               (point_batch (case get_collection_fault ?sa of
                               None \<Rightarrow> length (collection ?wB) | Some e \<Rightarrow> 0) ?cC ?eC)\<rparr>)"
    by blast
  then have runC: "process_audio ?sa ?wB ''talks/talk.mp3'' = (Inr 1, ?wC)"
    by (simp only: nofault option.case lenB) (simp add: chunks_in_order_def)
  have colC: "map pt_id (collection ?wC) = [0, 1, 2, 3, 4, 5, 6, 7, 8]"
    by (simp add: empty_world_def upsert_def point_batch_def chunks_in_order_def)
  have textC: "map (\<lambda>p. pl_text (pt_payload p)) (collection ?wC)
         = [Some ''alpha'', Some ''beta'', Some [], Some ''delta'', Some ''eps'',
            Some ''one'', Some ''two'', Some ''three'', Some ''hello world'']"
    by (simp add: empty_world_def upsert_def point_batch_def chunks_in_order_def
        cleaned_text_def char_class_defs)
  have srcC: "map (\<lambda>p. pl_source (pt_payload p)) (collection ?wC)
         = [Some ''A.pdf'', Some ''A.pdf'', Some ''A.pdf'', Some ''A.pdf'', Some ''A.pdf'',
            Some ''B.pdf'', Some ''B.pdf'', Some ''B.pdf'', Some ''talk.mp3'']"
    by (simp add: empty_world_def upsert_def point_batch_def chunks_in_order_def)
  show ?thesis
    by (rule exI [of _ ?wA], rule exI [of _ ?wB], rule exI [of _ ?wC])
      (intro conjI runA colA runB colB runC colC textC srcC)
qed

subsection \<open>Failure before the insert\<close>

lemma transcribe_audio_collection:
  "transcribe_audio sv w audio_path = (r, w1) \<Longrightarrow> collection w1 = collection w"
  by (auto simp: transcribe_audio_def split: if_splits option.splits)

text \<open>
  Claim C9: when the extraction or the transcription fails, or the chunking fails, or the
  embedding fails, the ingestion fails with that very exception and the collection holds
  exactly the points it held before; this is so for \<open>process_pdf\<close> and for
  \<open>process_audio\<close> (which may have loaded the Whisper model by then).
\<close>

theorem ingestion_aborts_before_insert:
  "(load_pdf sv path = Inl e \<longrightarrow> process_pdf sv w path = (Inl e, w)) \<and>
   (load_pdf sv path = Inr texts \<and> chunk_text sv texts (basename path) = Inl e
      \<longrightarrow> process_pdf sv w path = (Inl e, w)) \<and>
   (load_pdf sv path = Inr texts \<and> chunk_text sv texts (basename path) = Inr chunks
      \<and> encode sv (map ch_text chunks) = Inl e
      \<longrightarrow> process_pdf sv w path = (Inl e, w)) \<and>
   (transcribe_audio sv w path = (Inl e, w1)
      \<longrightarrow> process_audio sv w path = (Inl e, w1) \<and> collection w1 = collection w) \<and>
   (transcribe_audio sv w path = (Inr transcript, w1)
      \<and> chunk_text sv [transcript] (basename path) = Inl e
      \<longrightarrow> process_audio sv w path = (Inl e, w1) \<and> collection w1 = collection w) \<and>
   (transcribe_audio sv w path = (Inr transcript, w1)
      \<and> chunk_text sv [transcript] (basename path) = Inr chunks
      \<and> encode sv (map ch_text chunks) = Inl e
      \<longrightarrow> process_audio sv w path = (Inl e, w1) \<and> collection w1 = collection w)"
proof (intro conjI impI)
  assume "load_pdf sv path = Inl e"
  then show "process_pdf sv w path = (Inl e, w)" by (simp add: process_pdf_def)
next
  assume "load_pdf sv path = Inr texts \<and> chunk_text sv texts (basename path) = Inl e"
  then show "process_pdf sv w path = (Inl e, w)" by (simp add: process_pdf_def)
next
  assume "load_pdf sv path = Inr texts \<and> chunk_text sv texts (basename path) = Inr chunks
      \<and> encode sv (map ch_text chunks) = Inl e"
  then show "process_pdf sv w path = (Inl e, w)"
    by (simp add: process_pdf_def embed_and_store_def)
next
  assume a: "transcribe_audio sv w path = (Inl e, w1)"
  then show "process_audio sv w path = (Inl e, w1)" by (simp add: process_audio_def)
  from a show "collection w1 = collection w" by (rule transcribe_audio_collection)
next
  assume a: "transcribe_audio sv w path = (Inr transcript, w1)
      \<and> chunk_text sv [transcript] (basename path) = Inl e"
  then show "process_audio sv w path = (Inl e, w1)" by (simp add: process_audio_def)
  from a show "collection w1 = collection w" by (auto dest: transcribe_audio_collection)
next
  assume a: "transcribe_audio sv w path = (Inr transcript, w1)
      \<and> chunk_text sv [transcript] (basename path) = Inr chunks
      \<and> encode sv (map ch_text chunks) = Inl e"
  then show "process_audio sv w path = (Inl e, w1)"
    by (simp add: process_audio_def embed_and_store_def)
  from a show "collection w1 = collection w" by (auto dest: transcribe_audio_collection)
qed

theorem ingestion_aborts_before_insert_witness:
  "process_pdf demo_services demo_world ''docs/missing.pdf'' = (Inl (Raised ''no such file''), demo_world)
   \<and> process_pdf (demo_services\<lparr>split_text := (\<lambda>t. Inl (Raised ''tokenizer failed''))\<rparr>) demo_world ''docs/B.pdf''
       = (Inl (Raised ''tokenizer failed''), demo_world)
   \<and> process_pdf (demo_services\<lparr>encode := (\<lambda>ts. Inl (Raised ''out of memory''))\<rparr>) demo_world ''docs/B.pdf''
       = (Inl (Raised ''out of memory''), demo_world)
   \<and> process_audio demo_services demo_world ''talk.mp3''
       = (Inl (Raised ''unsupported audio''), demo_world\<lparr>whisper_model := True\<rparr>)
   \<and> process_audio (demo_services\<lparr>whisper_transcribe := (\<lambda>p. Inr ''hello''),
                                   split_text := (\<lambda>t. Inl (Raised ''tokenizer failed''))\<rparr>) demo_world ''talk.mp3''
       = (Inl (Raised ''tokenizer failed''), demo_world\<lparr>whisper_model := True\<rparr>)
   \<and> process_audio (demo_services\<lparr>whisper_transcribe := (\<lambda>p. Inr ''hello''),
                                   encode := (\<lambda>ts. Inl (Raised ''out of memory''))\<rparr>) demo_world ''talk.mp3''
       = (Inl (Raised ''out of memory''), demo_world\<lparr>whisper_model := True\<rparr>)
   \<and> collection (demo_world\<lparr>whisper_model := True\<rparr>) = collection demo_world"
proof -
  let ?sv2 = "demo_services\<lparr>split_text := (\<lambda>t. Inl (Raised ''tokenizer failed''))\<rparr>"
  let ?sv3 = "demo_services\<lparr>encode := (\<lambda>ts. Inl (Raised ''out of memory''))\<rparr>"
  let ?sv5 = "demo_services\<lparr>whisper_transcribe := (\<lambda>p. Inr ''hello''),
                                   split_text := (\<lambda>t. Inl (Raised ''tokenizer failed''))\<rparr>"
  let ?sv6 = "demo_services\<lparr>whisper_transcribe := (\<lambda>p. Inr ''hello''),
                                   encode := (\<lambda>ts. Inl (Raised ''out of memory''))\<rparr>"
  let ?w1 = "demo_world\<lparr>whisper_model := True\<rparr>"
  have h1: "load_pdf demo_services ''docs/missing.pdf'' = Inl (Raised ''no such file'')"
    by (simp add: load_pdf_def demo_services_def)
  have h2: "load_pdf ?sv2 ''docs/B.pdf'' = Inr [''one'', ''two'', ''three'']
      \<and> chunk_text ?sv2 [''one'', ''two'', ''three''] (basename ''docs/B.pdf'') = Inl (Raised ''tokenizer failed'')"
    by (simp add: load_pdf_def chunk_text_def demo_services_def)
  have h3: "load_pdf ?sv3 ''docs/B.pdf'' = Inr [''one'', ''two'', ''three'']
      \<and> chunk_text ?sv3 [''one'', ''two'', ''three''] (basename ''docs/B.pdf'')
           = Inr (chunks_in_order ''B.pdf'' 0 [[''one''], [''two''], [''three'']])
      \<and> encode ?sv3 (map ch_text (chunks_in_order ''B.pdf'' 0 [[''one''], [''two''], [''three'']]))
           = Inl (Raised ''out of memory'')"
    by (simp add: load_pdf_def chunk_text_def demo_services_def chunks_in_order_def basename_def)
  have h4: "transcribe_audio demo_services demo_world ''talk.mp3'' = (Inl (Raised ''unsupported audio''), ?w1)"
    by (simp add: transcribe_audio_def demo_services_def demo_world_def)
  have h5: "transcribe_audio ?sv5 demo_world ''talk.mp3'' = (Inr ''hello'', ?w1)
      \<and> chunk_text ?sv5 [''hello''] (basename ''talk.mp3'') = Inl (Raised ''tokenizer failed'')"
    by (simp add: transcribe_audio_def chunk_text_def demo_services_def demo_world_def)
  have h6: "transcribe_audio ?sv6 demo_world ''talk.mp3'' = (Inr ''hello'', ?w1)
      \<and> chunk_text ?sv6 [''hello''] (basename ''talk.mp3'')
           = Inr (chunks_in_order ''talk.mp3'' 0 [[''hello'']])
      \<and> encode ?sv6 (map ch_text (chunks_in_order ''talk.mp3'' 0 [[''hello'']]))
           = Inl (Raised ''out of memory'')"
    by (simp add: transcribe_audio_def chunk_text_def demo_services_def demo_world_def
        chunks_in_order_def basename_def)
  from h1 ingestion_aborts_before_insert [of demo_services "''docs/missing.pdf''" "Raised ''no such file''" demo_world]
  have r1: "process_pdf demo_services demo_world ''docs/missing.pdf'' = (Inl (Raised ''no such file''), demo_world)"
    by blast
  from h2 ingestion_aborts_before_insert [of ?sv2 "''docs/B.pdf''" "Raised ''tokenizer failed''" demo_world "[''one'', ''two'', ''three'']"]
  have r2: "process_pdf ?sv2 demo_world ''docs/B.pdf'' = (Inl (Raised ''tokenizer failed''), demo_world)"
    by blast
  from h3 ingestion_aborts_before_insert [of ?sv3 "''docs/B.pdf''" "Raised ''out of memory''" demo_world "[''one'', ''two'', ''three'']"
      "chunks_in_order ''B.pdf'' 0 [[''one''], [''two''], [''three'']]"]
  have r3: "process_pdf ?sv3 demo_world ''docs/B.pdf'' = (Inl (Raised ''out of memory''), demo_world)"
    by blast
  from h4 ingestion_aborts_before_insert [of demo_services "''talk.mp3''" "Raised ''unsupported audio''" demo_world _ _ ?w1]
  have r4: "process_audio demo_services demo_world ''talk.mp3'' = (Inl (Raised ''unsupported audio''), ?w1)
      \<and> collection ?w1 = collection demo_world"
    by blast
  from h5 ingestion_aborts_before_insert [of ?sv5 "''talk.mp3''" "Raised ''tokenizer failed''" demo_world _ _ ?w1 "''hello''"]
  have r5: "process_audio ?sv5 demo_world ''talk.mp3'' = (Inl (Raised ''tokenizer failed''), ?w1)"
    by blast
  from h6 ingestion_aborts_before_insert [of ?sv6 "''talk.mp3''" "Raised ''out of memory''" demo_world _
      "chunks_in_order ''talk.mp3'' 0 [[''hello'']]" ?w1 "''hello''"]
  have r6: "process_audio ?sv6 demo_world ''talk.mp3'' = (Inl (Raised ''out of memory''), ?w1)"
    by blast
  from r1 r2 r3 r4 r5 r6 show ?thesis by (intro conjI) simp_all
qed

section \<open>Retrieval and answers\<close>

subsection \<open>The score filter\<close>

lemma filter_by_score_eq:
  "filter_by_score t ps acc = acc @ map to_retrieved (filter (passes_threshold t) ps)"
  by (induction ps arbitrary: acc) simp_all

lemma retrieve_eq:
  assumes "encode sv [question] = Inr (v # vs)" "query_points sv (collection w) v top_k = Inr hits"
  shows "retrieve sv w question top_k t = Inr (map to_retrieved (filter (passes_threshold t) hits))"
  using assms by (simp add: retrieve_def filter_by_score_eq)

lemma retrieve_Inr:
  assumes "retrieve sv w question top_k t = Inr cs"
  shows "\<exists>v vs hits. encode sv [question] = Inr (v # vs)
           \<and> query_points sv (collection w) v top_k = Inr hits
           \<and> cs = map to_retrieved (filter (passes_threshold t) hits)"
  using assms by (auto simp: retrieve_def filter_by_score_eq split: sum.splits list.splits)

text \<open>On hits none of which has the score 0, \<open>retrieve\<close> keeps exactly the hits whose score
  is at least the threshold, in the order of the search result.\<close>

lemma retrieve_nonzero_scores:
  assumes "encode sv [question] = Inr (v # vs)"
    and "query_points sv (collection w) v top_k = Inr hits"
    and "\<forall>p\<in>set hits. sp_score p \<noteq> Some 0"
  shows "retrieve sv w question top_k t
           = Inr (map to_retrieved
                    (filter (\<lambda>p. case sp_score p of None \<Rightarrow> False | Some s \<Rightarrow> s \<ge> t) hits))"
proof -
  have "filter (passes_threshold t) hits
          = filter (\<lambda>p. case sp_score p of None \<Rightarrow> False | Some s \<Rightarrow> s \<ge> t) hits"
    using assms(3) by (intro filter_cong) (auto simp: passes_threshold_def split: option.splits)
  with retrieve_eq [OF assms(1,2)] show ?thesis by simp
qed

lemmas query_defs = retrieve_def demo_services_def demo_hits_def passes_threshold_def to_retrieved_def
  empty_world_def

text \<open>
  The example of the specification: with the scores 0.9, 0.5 and 0.2 and the threshold
  0.3, \<open>retrieve\<close> returns the first two hits, in that order.
\<close>

lemma retrieve_threshold_example:
  "retrieve demo_services empty_world ''q'' 5 (3/10)
    = Inr [\<lparr>rc_text = ''alpha'', rc_source = ''a.pdf'', rc_score = 9/10\<rparr>,
           \<lparr>rc_text = ''beta'', rc_source = ''unknown'', rc_score = 1/2\<rparr>]"
  by (simp add: retrieve_def demo_services_def demo_hits_def passes_threshold_def to_retrieved_def)

text \<open>
  Claim C1 says that \<open>retrieve\<close> returns every search result whose score is at least the
  threshold.  The test in the code is \<open>point.score and point.score >= score_threshold\<close>,
  and the score 0.0 is falsy: with the threshold 0 and the hits scored 0.5 and 0.0, both
  scores are at least the threshold, and \<open>retrieve\<close> returns the first hit only.
\<close>

theorem retrieve_drops_zero_score:
  "sp_score (zero_score_hits ! 1) = Some 0 \<and> (0::real) \<ge> 0 \<and>
   retrieve (demo_services\<lparr>query_points := (\<lambda>col v k. Inr zero_score_hits)\<rparr>) empty_world ''q'' 5 0
    = Inr [\<lparr>rc_text = ''alpha'', rc_source = ''a.pdf'', rc_score = 1/2\<rparr>]"
  by (simp add: retrieve_def demo_services_def zero_score_hits_def passes_threshold_def to_retrieved_def)

text \<open>
  Claim C10: provided the vector store returns at most \<open>limit\<close> hits, a result of \<open>query\<close>
  has \<open>num_chunks\<close> equal to the length of its chunk list, and that length is at most
  \<open>top_k\<close>.
\<close>

theorem query_num_chunks:
  assumes limit: "\<forall>col v k hits. query_points sv col v k = Inr hits \<longrightarrow> int (length hits) \<le> k"
    and q: "query sv w question top_k score_threshold = (Inr r, w')"
  shows "num_chunks r = length (qr_chunks r) \<and> int (length (qr_chunks r)) \<le> top_k"
proof -
  from q obtain cs where r: "retrieve sv w question top_k score_threshold = Inr cs"
    by (auto simp: query_def split: sum.splits)
  from retrieve_Inr [OF r] obtain v vs hits where
    h: "query_points sv (collection w) v top_k = Inr hits"
    and cs: "cs = map to_retrieved (filter (passes_threshold score_threshold) hits)"
    by blast
  have "length cs \<le> length hits" by (simp add: cs)
  moreover from limit h have "int (length hits) \<le> top_k" by blast
  ultimately have le: "int (length cs) \<le> top_k" by linarith
  from q r have "qr_chunks r = cs \<and> num_chunks r = length cs"
    by (auto simp: query_def split: if_splits prod.splits)
  with le show ?thesis by simp
qed

theorem query_num_chunks_witness:
  "fst (query demo_services empty_world ''What is alpha?'' 1 (3/10))
       = Inr \<lparr>answer = ''Error generating answer: connection refused'',
              qr_chunks = [\<lparr>rc_text = ''alpha'', rc_source = ''a.pdf'', rc_score = 9/10\<rparr>],
              num_chunks = 1\<rparr>
   \<and> int (length [\<lparr>rc_text = ''alpha'', rc_source = ''a.pdf'', rc_score = 9/10\<rparr>]) \<le> 1"
proof -
  let ?r = "\<lparr>answer = ''Error generating answer: connection refused'',
              qr_chunks = [\<lparr>rc_text = ''alpha'', rc_source = ''a.pdf'', rc_score = 9/10\<rparr>],
              num_chunks = 1\<rparr>"
  have lim: "\<forall>col v k hits. query_points demo_services col v k = Inr hits \<longrightarrow> int (length hits) \<le> k"
    by (auto simp: demo_services_def split: if_splits)
  obtain w' where q: "query demo_services empty_world ''What is alpha?'' 1 (3/10) = (Inr ?r, w')"
    by (simp add: query_def generate_answer_def query_defs Let_def)
  from query_num_chunks [OF lim q] q show ?thesis by simp
qed

subsection \<open>Answers\<close>

text \<open>
  Claim C2: when no retrieved hit passes the filter, \<open>query\<close> returns the fixed answer,
  the empty chunk list and \<open>num_chunks = 0\<close>, and the state is unchanged: no prompt has been
  sent to the language model.
\<close>

theorem query_empty_retrieval:
  assumes "retrieve sv w question top_k score_threshold = Inr []"
  shows "query sv w question top_k score_threshold
           = (Inr \<lparr>answer = ''I couldn't find any relevant information in the knowledge base to answer this question.'',
                   qr_chunks = [], num_chunks = 0\<rparr>, w)
         \<and> llm_prompts (snd (query sv w question top_k score_threshold)) = llm_prompts w"
  using assms by (simp add: query_def no_information_def)

theorem query_empty_retrieval_witness:
  "retrieve demo_services empty_world ''What is alpha?'' 5 (95/100) = Inr []
   \<and> query demo_services empty_world ''What is alpha?'' 5 (95/100)
       = (Inr \<lparr>answer = ''I couldn't find any relevant information in the knowledge base to answer this question.'',
               qr_chunks = [], num_chunks = 0\<rparr>, empty_world)
   \<and> llm_prompts (snd (query demo_services empty_world ''What is alpha?'' 5 (95/100))) = []"
proof -
  have r: "retrieve demo_services empty_world ''What is alpha?'' 5 (95/100) = Inr []"
    by (simp add: query_defs)
  from query_empty_retrieval [OF r] r show ?thesis by (simp add: empty_world_def)
qed

text \<open>
  Claim C3: when the filtered retrieval set is not empty and the language model raises
  \<open>e\<close>, \<open>query\<close> still returns a result: its answer is \<open>Error generating answer: \<close> followed
  by \<open>str(e)\<close>, its chunks are the retrieved chunks and \<open>num_chunks\<close> is their number.
\<close>

theorem query_generation_failure:
  assumes "retrieve sv w question top_k score_threshold = Inr cs" "cs \<noteq> []"
    "ollama_generate sv (make_prompt question cs) = Inl e"
  shows "query sv w question top_k score_threshold
           = (Inr \<lparr>answer = ''Error generating answer: '' @ str_exn e,
                   qr_chunks = cs, num_chunks = length cs\<rparr>,
              w\<lparr>llm_prompts := llm_prompts w @ [make_prompt question cs]\<rparr>)"
  using assms by (simp add: query_def generate_answer_def Let_def)

theorem query_generation_failure_witness:
  "retrieve demo_services empty_world ''What is alpha?'' 5 (3/10)
     = Inr [\<lparr>rc_text = ''alpha'', rc_source = ''a.pdf'', rc_score = 9/10\<rparr>,
            \<lparr>rc_text = ''beta'', rc_source = ''unknown'', rc_score = 5/10\<rparr>]
   \<and> fst (query demo_services empty_world ''What is alpha?'' 5 (3/10))
       = Inr \<lparr>answer = ''Error generating answer: connection refused'',
              qr_chunks = [\<lparr>rc_text = ''alpha'', rc_source = ''a.pdf'', rc_score = 9/10\<rparr>,
                           \<lparr>rc_text = ''beta'', rc_source = ''unknown'', rc_score = 5/10\<rparr>],
              num_chunks = 2\<rparr>"
proof -
  let ?cs = "[\<lparr>rc_text = ''alpha'', rc_source = ''a.pdf'', rc_score = 9/10\<rparr>,
              \<lparr>rc_text = ''beta'', rc_source = ''unknown'', rc_score = 5/10\<rparr>]"
  have r: "retrieve demo_services empty_world ''What is alpha?'' 5 (3/10) = Inr ?cs"
    by (simp add: query_defs)
  have ne: "?cs \<noteq> []" by simp
  have g: "ollama_generate demo_services (make_prompt ''What is alpha?'' ?cs) = Inl (Raised ''connection refused'')"
    by (simp add: demo_services_def)
  from query_generation_failure [OF r ne g] r show ?thesis by simp
qed

lemma join_butlast:
  "xs \<noteq> [] \<Longrightarrow> join sep xs = concat (map (\<lambda>x. x @ sep) (butlast xs)) @ last xs"
  by (induction sep xs rule: join.induct) simp_all

text \<open>
  Claim C8: for a non-empty list of chunks, \<open>generate_answer\<close> calls the language model
  with exactly one prompt: the instruction and the \<open>Context:\<close> line, then every chunk as
  \<open>[Source: source]\<close>, a newline and its text, in the order of the list and with an empty
  line between two chunks, then an empty line, \<open>Question: \<close> and the question as it is,
  an empty line and \<open>Answer:\<close>.  The answer is what the language model returns for that
  prompt (or the error text when it raises), and that prompt is the one recorded as sent.
\<close>

theorem generate_answer_prompt:
  assumes "cs \<noteq> []"
  shows "generate_answer sv w question cs =
     (let prompt =
        ''Answer the question using the provided context. If the context does not contain relevant information, say you don't know.''
        @ newline @ newline @ ''Context:'' @ newline
        @ concat (map (\<lambda>c. ''[Source: '' @ rc_source c @ '']'' @ newline @ rc_text c @ newline @ newline) (butlast cs))
        @ ''[Source: '' @ rc_source (last cs) @ '']'' @ newline @ rc_text (last cs)
        @ newline @ newline @ ''Question: '' @ question
        @ newline @ newline @ ''Answer:''
      in (case ollama_generate sv prompt of
            Inr response \<Rightarrow> response
          | Inl e \<Rightarrow> ''Error generating answer: '' @ str_exn e,
          w\<lparr>llm_prompts := llm_prompts w @ [prompt]\<rparr>))"
proof -
  have "join (newline @ newline) (map format_chunk cs)
      = concat (map (\<lambda>c. ''[Source: '' @ rc_source c @ '']'' @ newline @ rc_text c @ newline @ newline) (butlast cs))
      @ ''[Source: '' @ rc_source (last cs) @ '']'' @ newline @ rc_text (last cs)"
    using assms by (simp add: join_butlast map_butlast [symmetric] last_map format_chunk_def comp_def)
  then show ?thesis
    by (simp add: generate_answer_def make_prompt_def Let_def split: sum.splits)
qed

theorem generate_answer_prompt_witness:
  "[\<lparr>rc_text = ''alpha'', rc_source = ''a.pdf'', rc_score = 9/10\<rparr>,
    \<lparr>rc_text = ''beta'', rc_source = ''unknown'', rc_score = 5/10\<rparr>] \<noteq> []
   \<and> generate_answer (demo_services\<lparr>ollama_generate := (\<lambda>p. Inr (''You asked: '' @ p))\<rparr>)
        empty_world ''What is alpha?''
        [\<lparr>rc_text = ''alpha'', rc_source = ''a.pdf'', rc_score = 9/10\<rparr>,
         \<lparr>rc_text = ''beta'', rc_source = ''unknown'', rc_score = 5/10\<rparr>]
     = (''You asked: ''
        @ ''Answer the question using the provided context. If the context does not contain relevant information, say you don't know.''
        @ newline @ newline @ ''Context:'' @ newline
        @ ''[Source: a.pdf]'' @ newline @ ''alpha'' @ newline @ newline
        @ ''[Source: unknown]'' @ newline @ ''beta''
        @ newline @ newline @ ''Question: What is alpha?''
        @ newline @ newline @ ''Answer:'',
        \<lparr>collection = [], whisper_model = False,
         llm_prompts =
           [''Answer the question using the provided context. If the context does not contain relevant information, say you don't know.''
            @ newline @ newline @ ''Context:'' @ newline
            @ ''[Source: a.pdf]'' @ newline @ ''alpha'' @ newline @ newline
            @ ''[Source: unknown]'' @ newline @ ''beta''
            @ newline @ newline @ ''Question: What is alpha?''
            @ newline @ newline @ ''Answer:'']\<rparr>)
   \<and> generate_answer demo_services empty_world ''What is alpha?''
        [\<lparr>rc_text = ''alpha'', rc_source = ''a.pdf'', rc_score = 9/10\<rparr>,
         \<lparr>rc_text = ''beta'', rc_source = ''unknown'', rc_score = 5/10\<rparr>]
     = (''Error generating answer: connection refused'',
        \<lparr>collection = [], whisper_model = False,
         llm_prompts =
           [''Answer the question using the provided context. If the context does not contain relevant information, say you don't know.''
            @ newline @ newline @ ''Context:'' @ newline
            @ ''[Source: a.pdf]'' @ newline @ ''alpha'' @ newline @ newline
            @ ''[Source: unknown]'' @ newline @ ''beta''
            @ newline @ newline @ ''Question: What is alpha?''
            @ newline @ newline @ ''Answer:'']\<rparr>)"
proof -
  let ?cs = "[\<lparr>rc_text = ''alpha'', rc_source = ''a.pdf'', rc_score = 9/10\<rparr>,
              \<lparr>rc_text = ''beta'', rc_source = ''unknown'', rc_score = 5/10\<rparr>]"
  have ne: "?cs \<noteq> []" by simp
  have echo: "ollama_generate (demo_services\<lparr>ollama_generate := (\<lambda>p. Inr (''You asked: '' @ p))\<rparr>)
                = (\<lambda>p. Inr (''You asked: '' @ p))"
    by simp
  have down: "ollama_generate demo_services = (\<lambda>p. Inl (Raised ''connection refused''))"
    by (simp add: demo_services_def)
  from generate_answer_prompt [OF ne,
      of "demo_services\<lparr>ollama_generate := (\<lambda>p. Inr (''You asked: '' @ p))\<rparr>" empty_world "''What is alpha?''"]
    generate_answer_prompt [OF ne, of demo_services empty_world "''What is alpha?''"]
  show ?thesis
    unfolding echo down by (simp add: empty_world_def Let_def)
qed

end
